theory Spec2Isabelle
  imports Complex_Main
begin

section \<open>Values\<close>

text \<open>
  The program computes on Python and numpy floating-point numbers. They are modelled as
  exact reals extended with the three special values of IEEE arithmetic. Rounding,
  overflow and the sign of zero are not modelled: a finite result is the exact real.
\<close>

datatype fval = Fin real | PInf | NInf | NaN

datatype error = ValueError | IndexError | ZeroDivisionError


section \<open>Empirical distribution\<close>

text \<open>
  \<^verbatim>\<open>np.min(R)\<close> and \<open>np.max(R)\<close>: a reduction over a zero-size array raises ValueError.
\<close>

fun np_min :: "int list \<Rightarrow> error + int" where
  "np_min [] = Inl ValueError"
| "np_min (r # rs) = Inr (fold min rs r)"

fun np_max :: "int list \<Rightarrow> error + int" where
  "np_max [] = Inl ValueError"
| "np_max (r # rs) = Inr (fold max rs r)"

text \<open>\<^verbatim>\<open>np.arange(start, stop)\<close> with step 1 on integral values.\<close>

definition arange :: "int \<Rightarrow> int \<Rightarrow> int list" where
  "arange start stop = [start..stop - 1]"

text \<open>\<^verbatim>\<open>xs.index(v)\<close>: the first position of v, ValueError when v is absent.\<close>

fun index :: "int list \<Rightarrow> int \<Rightarrow> error + nat" where
  "index [] v = Inl ValueError"
| "index (x # xs) v =
     (if x = v then Inr 0
      else (case index xs v of Inl e \<Rightarrow> Inl e | Inr k \<Rightarrow> Inr (Suc k)))"

text \<open>
  The counting loop
  \<^verbatim>\<open>for i in range(0,len(R)): fr[xs.index(R[i])] += 1\<close>
  as a recursion over the samples, the frequency list passed along.
\<close>

fun count_loop :: "int list \<Rightarrow> int list \<Rightarrow> nat list \<Rightarrow> error + nat list" where
  "count_loop xs [] fr = Inr fr"
| "count_loop xs (r # rs) fr =
     (case index xs r of
        Inl e \<Rightarrow> Inl e
      | Inr k \<Rightarrow> count_loop xs rs (fr[k := fr ! k + 1]))"

text \<open>\<^verbatim>\<open>p = [x/N for x in fr]\<close>: Python's true division raises on a zero divisor.\<close>

definition probabilities :: "nat list \<Rightarrow> nat \<Rightarrow> error + real list" where
  "probabilities fr N =
     (if fr \<noteq> [] \<and> N = 0 then Inl ZeroDivisionError
      else Inr (map (\<lambda>x. real x / real N) fr))"

record empirical =
  emp_xs :: "int list"
  emp_fr :: "nat list"
  emp_N :: nat
  emp_n :: nat
  emp_p :: "real list"

text \<open>Lines 102 to 110 of the source: support, frequencies, sizes and probabilities.\<close>

definition empiricalDistribution :: "int list \<Rightarrow> error + empirical" where
  "empiricalDistribution R =
     (case np_min R of
        Inl e \<Rightarrow> Inl e
      | Inr lo \<Rightarrow>
     (case np_max R of
        Inl e \<Rightarrow> Inl e
      | Inr hi \<Rightarrow>
     (let xs = arange lo (hi + 1) in
      case count_loop xs R (replicate (length xs) 0) of
        Inl e \<Rightarrow> Inl e
      | Inr fr \<Rightarrow>
     (case probabilities fr (length R) of
        Inl e \<Rightarrow> Inl e
      | Inr p \<Rightarrow>
          Inr \<lparr>emp_xs = xs, emp_fr = fr, emp_N = length R, emp_n = length xs, emp_p = p\<rparr>))))"

section \<open>Float arithmetic\<close>

text \<open>
  The operations of numpy's float64 on the extended values. A division by zero gives an
  infinity or NaN (numpy warns and goes on); NaN is absorbing.
\<close>

fun fneg :: "fval \<Rightarrow> fval" where
  "fneg (Fin a) = Fin (- a)"
| "fneg PInf = NInf"
| "fneg NInf = PInf"
| "fneg NaN = NaN"

fun fadd :: "fval \<Rightarrow> fval \<Rightarrow> fval" where
  "fadd (Fin a) (Fin b) = Fin (a + b)"
| "fadd (Fin a) PInf = PInf"
| "fadd (Fin a) NInf = NInf"
| "fadd PInf (Fin b) = PInf"
| "fadd PInf PInf = PInf"
| "fadd PInf NInf = NaN"
| "fadd NInf (Fin b) = NInf"
| "fadd NInf PInf = NaN"
| "fadd NInf NInf = NInf"
| "fadd NaN y = NaN"
| "fadd x NaN = NaN"

definition fsub :: "fval \<Rightarrow> fval \<Rightarrow> fval" where
  "fsub x y = fadd x (fneg y)"

fun fmul :: "fval \<Rightarrow> fval \<Rightarrow> fval" where
  "fmul (Fin a) (Fin b) = Fin (a * b)"
| "fmul (Fin a) PInf = (if a = 0 then NaN else if 0 < a then PInf else NInf)"
| "fmul (Fin a) NInf = (if a = 0 then NaN else if 0 < a then NInf else PInf)"
| "fmul PInf (Fin b) = (if b = 0 then NaN else if 0 < b then PInf else NInf)"
| "fmul NInf (Fin b) = (if b = 0 then NaN else if 0 < b then NInf else PInf)"
| "fmul PInf PInf = PInf"
| "fmul PInf NInf = NInf"
| "fmul NInf PInf = NInf"
| "fmul NInf NInf = PInf"
| "fmul NaN y = NaN"
| "fmul x NaN = NaN"

fun fdiv :: "fval \<Rightarrow> fval \<Rightarrow> fval" where
  "fdiv (Fin a) (Fin b) =
     (if b \<noteq> 0 then Fin (a / b)
      else if a = 0 then NaN else if 0 < a then PInf else NInf)"
| "fdiv (Fin a) PInf = Fin 0"
| "fdiv (Fin a) NInf = Fin 0"
| "fdiv PInf (Fin b) = (if 0 \<le> b then PInf else NInf)"
| "fdiv NInf (Fin b) = (if 0 \<le> b then NInf else PInf)"
| "fdiv PInf PInf = NaN"
| "fdiv PInf NInf = NaN"
| "fdiv NInf PInf = NaN"
| "fdiv NInf NInf = NaN"
| "fdiv NaN y = NaN"
| "fdiv x NaN = NaN"

text \<open>
  \<^verbatim>\<open>x ** y\<close> on float64 (C's pow): \<open>pow(x, 0)\<close> and \<open>pow(1, y)\<close> are 1 even for a NaN
  argument; a negative base with a non-integral exponent is NaN; \<open>pow(0, y)\<close> with
  \<open>y < 0\<close> is an infinity.
\<close>

definition is_integral :: "real \<Rightarrow> bool" where
  "is_integral b = (b = of_int \<lfloor>b\<rfloor>)"

fun fpow :: "fval \<Rightarrow> fval \<Rightarrow> fval" where
  "fpow (Fin a) (Fin b) =
     (if b = 0 then Fin 1
      else if 0 < a then Fin (a powr b)
      else if a = 0 then (if 0 < b then Fin 0 else PInf)
      else if is_integral b then Fin (power_int a \<lfloor>b\<rfloor>)
      else NaN)"
| "fpow (Fin a) PInf =
     (if \<bar>a\<bar> < 1 then Fin 0 else if \<bar>a\<bar> = 1 then Fin 1 else PInf)"
| "fpow (Fin a) NInf =
     (if \<bar>a\<bar> < 1 then PInf else if \<bar>a\<bar> = 1 then Fin 1 else Fin 0)"
| "fpow (Fin a) NaN = (if a = 1 then Fin 1 else NaN)"
| "fpow PInf (Fin b) = (if b = 0 then Fin 1 else if 0 < b then PInf else Fin 0)"
| "fpow NInf (Fin b) =
     (if b = 0 then Fin 1
      else if b < 0 then Fin 0
      else if is_integral b \<and> odd \<lfloor>b\<rfloor> then NInf else PInf)"
| "fpow PInf PInf = PInf"
| "fpow PInf NInf = Fin 0"
| "fpow NInf PInf = PInf"
| "fpow NInf NInf = Fin 0"
| "fpow PInf NaN = NaN"
| "fpow NInf NaN = NaN"
| "fpow NaN (Fin b) = (if b = 0 then Fin 1 else NaN)"
| "fpow NaN PInf = NaN"
| "fpow NaN NInf = NaN"
| "fpow NaN NaN = NaN"

fun fsqrt :: "fval \<Rightarrow> fval" where
  "fsqrt (Fin a) = (if 0 \<le> a then Fin (sqrt a) else NaN)"
| "fsqrt PInf = PInf"
| "fsqrt NInf = NaN"
| "fsqrt NaN = NaN"

fun fabs :: "fval \<Rightarrow> fval" where
  "fabs (Fin a) = Fin \<bar>a\<bar>"
| "fabs PInf = PInf"
| "fabs NInf = PInf"
| "fabs NaN = NaN"

text \<open>\<^verbatim>\<open>np.maximum\<close>: NaN wins.\<close>

fun fmax :: "fval \<Rightarrow> fval \<Rightarrow> fval" where
  "fmax (Fin a) (Fin b) = Fin (max a b)"
| "fmax (Fin a) PInf = PInf"
| "fmax (Fin a) NInf = Fin a"
| "fmax PInf (Fin b) = PInf"
| "fmax PInf PInf = PInf"
| "fmax PInf NInf = PInf"
| "fmax NInf (Fin b) = Fin b"
| "fmax NInf PInf = PInf"
| "fmax NInf NInf = NInf"
| "fmax NaN y = NaN"
| "fmax x NaN = NaN"


section \<open>Reductions of numpy\<close>

definition np_sum :: "fval list \<Rightarrow> fval" where
  "np_sum v = foldl fadd (Fin 0) v"

text \<open>\<^verbatim>\<open>np.mean\<close>: the mean of an empty array is \<open>0/0\<close>, NaN with a warning.\<close>

definition np_mean :: "fval list \<Rightarrow> fval" where
  "np_mean v = fdiv (np_sum v) (Fin (real (length v)))"

fun cumsum_from :: "fval \<Rightarrow> fval list \<Rightarrow> fval list" where
  "cumsum_from acc [] = []"
| "cumsum_from acc (x # v) = fadd acc x # cumsum_from (fadd acc x) v"

definition np_cumsum :: "fval list \<Rightarrow> fval list" where
  "np_cumsum v = cumsum_from (Fin 0) v"

text \<open>\<^verbatim>\<open>np.max\<close> of a list of floats: ValueError on the empty list.\<close>

fun np_amax :: "fval list \<Rightarrow> error + fval" where
  "np_amax [] = Inl ValueError"
| "np_amax (x # v) = Inr (fold fmax v x)"

text \<open>\<^verbatim>\<open>np.var\<close> (population variance) and \<open>np.std\<close>.\<close>

definition np_var :: "fval list \<Rightarrow> fval" where
  "np_var v = np_mean (map (\<lambda>x. fpow (fabs (fsub x (np_mean v))) (Fin 2)) v)"

definition np_std :: "fval list \<Rightarrow> fval" where
  "np_std v = fsqrt (np_var v)"

text \<open>
  \<^verbatim>\<open>np.percentile(v, q)\<close> with the default linear interpolation, and
  \<^verbatim>\<open>scipy.stats.iqr\<close>, the difference of the 75th and the 25th percentile.
\<close>

definition percentile :: "real list \<Rightarrow> real \<Rightarrow> fval" where
  "percentile v q =
     (if v = [] then NaN
      else let s = sort v;
               h = real (length v - 1) * q / 100;
               lo = nat \<lfloor>h\<rfloor>;
               hi = min (lo + 1) (length v - 1)
           in Fin (s ! lo + (h - real lo) * (s ! hi - s ! lo)))"

definition iqr :: "real list \<Rightarrow> fval" where
  "iqr v = fsub (percentile v 75) (percentile v 25)"

section \<open>Vectors and library functions\<close>

text \<open>
  A vector of floats is either a Python list of Python floats or a numpy array. The
  difference shows in a division by zero: Python's \<open>/\<close> on two Python floats raises
  ZeroDivisionError, numpy's gives an infinity or NaN.
\<close>

datatype vec = PyList "fval list" | NdArray "fval list"

fun elems :: "vec \<Rightarrow> fval list" where
  "elems (PyList v) = v"
| "elems (NdArray v) = v"

fun is_ndarray :: "vec \<Rightarrow> bool" where
  "is_ndarray (PyList v) = False"
| "is_ndarray (NdArray v) = True"

text \<open>
  The special functions of scipy are not code of this repository; they are parameters of
  the model. \<open>binom\<close> is \<^verbatim>\<open>scipy.special.binom\<close>, \<open>beta\<close> is \<^verbatim>\<open>scipy.special.beta\<close>
  and \<open>zeta\<close> is the Riemann zeta function. \<^verbatim>\<open>scipy.special.zetac\<close>, which the source
  calls, is documented as the Riemann zeta function minus 1.
\<close>

record library =
  binom :: "fval \<Rightarrow> fval \<Rightarrow> fval"
  beta :: "fval \<Rightarrow> fval \<Rightarrow> fval"
  zeta :: "fval \<Rightarrow> fval"

definition zetac :: "library \<Rightarrow> fval \<Rightarrow> fval" where
  "zetac L c = fsub (zeta L c) (Fin 1)"

section \<open>Distribution functions\<close>

text \<open>\<^verbatim>\<open>y = [1/n]*len(x)\<close>, with n a Python integer.\<close>

definition uniDist :: "fval list \<Rightarrow> nat \<Rightarrow> error + vec" where
  "uniDist x n =
     (if n = 0 then Inl ZeroDivisionError
      else Inr (PyList (replicate (length x) (Fin (1 / real n)))))"

text \<open>\<^verbatim>\<open>y = binom(n,x)*beta(a+x,b+n-x)/beta(a,b)\<close>, elementwise over the array x.\<close>

definition betaBinomN :: "library \<Rightarrow> fval list \<Rightarrow> fval \<Rightarrow> fval \<Rightarrow> fval \<Rightarrow> vec" where
  "betaBinomN L x n a b =
     NdArray (map (\<lambda>xi. fdiv (fmul (binom L n xi)
                                    (beta L (fadd a xi) (fsub (fadd b n) xi)))
                              (beta L a b)) x)"

definition betaBinom :: "library \<Rightarrow> fval list \<Rightarrow> fval \<Rightarrow> fval \<Rightarrow> vec" where
  "betaBinom L x a b =
     (let n = Fin (real (length x)) in
      NdArray (map (\<lambda>xi. fdiv (fmul (binom L n xi)
                                     (beta L (fadd a xi) (fsub (fadd b n) xi)))
                               (beta L a b)) x))"

text \<open>\<^verbatim>\<open>y = [xx**(-1*(c)) for xx in x]/zetac(c)\<close>.\<close>

definition zipfDist :: "library \<Rightarrow> fval list \<Rightarrow> fval \<Rightarrow> vec" where
  "zipfDist L x c =
     NdArray (map (\<lambda>y. fdiv y (zetac L c))
                  (map (\<lambda>xx. fpow xx (fmul (Fin (- 1)) c)) x))"

section \<open>Goodness-of-fit metrics\<close>

text \<open>
  \<^verbatim>\<open>[f(O[i], E[i]) for i in range(0,len(O))]\<close>: IndexError when E is shorter than O.
\<close>

fun pointwise :: "(fval \<Rightarrow> fval \<Rightarrow> fval) \<Rightarrow> fval list \<Rightarrow> fval list \<Rightarrow> error + fval list" where
  "pointwise f [] es = Inr []"
| "pointwise f (o1 # os) [] = Inl IndexError"
| "pointwise f (o1 # os) (e # es) =
     (case pointwise f os es of
        Inl err \<Rightarrow> Inl err
      | Inr r \<Rightarrow> Inr (f o1 e # r))"

text \<open>
  The division \<^verbatim>\<open>x / E[i]\<close> of chiSquare. O is a Python list; when E is one too, both
  operands are Python floats.
\<close>

definition divide :: "bool \<Rightarrow> fval \<Rightarrow> fval \<Rightarrow> error + fval" where
  "divide nd x e =
     (if \<not> nd \<and> e = Fin 0 then Inl ZeroDivisionError else Inr (fdiv x e))"

fun chiSquare_loop :: "bool \<Rightarrow> fval list \<Rightarrow> fval list \<Rightarrow> fval \<Rightarrow> error + fval" where
  "chiSquare_loop nd [] es chi_sq = Inr chi_sq"
| "chiSquare_loop nd (o1 # os) [] chi_sq = Inl IndexError"
| "chiSquare_loop nd (o1 # os) (e # es) chi_sq =
     (case divide nd (fpow (fsub o1 e) (Fin 2)) e of
        Inl err \<Rightarrow> Inl err
      | Inr x \<Rightarrow> chiSquare_loop nd os es (fadd chi_sq x))"

definition chiSquare :: "fval list \<Rightarrow> vec \<Rightarrow> error + fval" where
  "chiSquare O' E = chiSquare_loop (is_ndarray E) O' (elems E) (Fin 0)"

definition RSquare :: "fval list \<Rightarrow> vec \<Rightarrow> error + fval" where
  "RSquare O' E =
     (case pointwise (\<lambda>o1 e. fpow (fsub o1 e) (Fin 2)) O' (elems E) of
        Inl err \<Rightarrow> Inl err
      | Inr SSres \<Rightarrow>
          (let SStot = map (\<lambda>o1. fpow (fsub o1 (np_mean O')) (Fin 2)) O'
           in Inr (fsub (Fin 1) (fdiv (np_sum SSres) (np_sum SStot)))))"

definition RMSE :: "fval list \<Rightarrow> vec \<Rightarrow> error + fval" where
  "RMSE O' E =
     (case pointwise (\<lambda>o1 e. fpow (fsub o1 e) (Fin 2)) O' (elems E) of
        Inl err \<Rightarrow> Inl err
      | Inr SE \<Rightarrow> Inr (fsqrt (np_mean SE)))"

definition KS :: "fval list \<Rightarrow> vec \<Rightarrow> error + fval" where
  "KS O' E =
     (let cumO = np_cumsum O'; cumE = np_cumsum (elems E) in
      case pointwise (\<lambda>co ce. fabs (fsub co ce)) cumO cumE of
        Inl err \<Rightarrow> Inl err
      | Inr d \<Rightarrow> np_amax d)"

section \<open>The orchestrator\<close>

definition bindE :: "error + 'a \<Rightarrow> ('a \<Rightarrow> error + 'b) \<Rightarrow> error + 'b" where
  "bindE m f = (case m of Inl e \<Rightarrow> Inl e | Inr x \<Rightarrow> f x)"

text \<open>
  \<^verbatim>\<open>curve_fit\<close> is scipy's optimizer, not code of this repository. A call either
  returns the fitted parameters or raises; its outcome is an option, \<open>None\<close> for a raise.
  The two \<^verbatim>\<open>try ... except\<close> blocks replace a raise by NaN parameters.
\<close>

fun b1_of :: "(fval \<times> fval) option \<Rightarrow> fval \<times> fval" where
  "b1_of (Some ab) = ab"
| "b1_of None = (NaN, NaN)"

fun z1_of :: "fval option \<Rightarrow> fval" where
  "z1_of (Some c) = c"
| "z1_of None = NaN"

text \<open>Lines 115 to 121: mean, standard deviation, range, variance, interquartile range.\<close>

definition basic_statistics :: "int list \<Rightarrow> error + fval list" where
  "basic_statistics R =
     (let Rf = map (\<lambda>r. Fin (real_of_int r)) R in
      bindE (np_max R) (\<lambda>hi.
      bindE (np_min R) (\<lambda>lo.
      Inr [np_mean Rf, np_std Rf, fsub (Fin (real_of_int hi)) (Fin (real_of_int lo)),
           np_var Rf, iqr (map real_of_int R)])))"

text \<open>
  One row of the metrics table, as in
  \<^verbatim>\<open>chis.append(chiSquare(p, uniDist(xs, n)))\<close>,
  \<^verbatim>\<open>chis.append(chiSquare(p, betaBinom(xs, b1[0],b1[1])))\<close>,
  \<^verbatim>\<open>chis.append(chiSquare(p, zipfDist(xs, z1[0])))\<close>.
\<close>

definition metric_row ::
  "library \<Rightarrow> (fval list \<Rightarrow> vec \<Rightarrow> error + fval) \<Rightarrow> fval list \<Rightarrow> nat \<Rightarrow> fval list \<Rightarrow>
   fval \<Rightarrow> fval \<Rightarrow> fval \<Rightarrow> error + fval list" where
  "metric_row L metric xs n p a b c =
     bindE (uniDist xs n) (\<lambda>u.
     bindE (metric p u) (\<lambda>m1.
     bindE (metric p (betaBinom L xs a b)) (\<lambda>m2.
     bindE (metric p (zipfDist L xs c)) (\<lambda>m3.
     Inr [m1, m2, m3]))))"

record result =
  basicStats :: "fval list"
  cell_data :: "fval list list"
  fittingParams :: "fval list"

text \<open>
  The function \<^verbatim>\<open>distributionFitting\<close> on the parsed samples, given the outcomes
  \<open>ob\<close> and \<open>oz\<close> of its two calls of \<^verbatim>\<open>curve_fit\<close>. Reading the file, printing and
  plotting are left out.
\<close>

definition distributionFitting ::
  "library \<Rightarrow> (fval \<times> fval) option \<Rightarrow> fval option \<Rightarrow> int list \<Rightarrow> error + result" where
  "distributionFitting L ob oz R =
     bindE (empiricalDistribution R) (\<lambda>e.
     bindE (basic_statistics R) (\<lambda>stats.
     (let xs = map (\<lambda>x. Fin (real_of_int x)) (emp_xs e);
          n = emp_n e;
          p = map Fin (emp_p e);
          b1 = b1_of ob;
          z1 = z1_of oz
      in
      bindE (metric_row L chiSquare xs n p (fst b1) (snd b1) z1) (\<lambda>chis.
      bindE (metric_row L RSquare xs n p (fst b1) (snd b1) z1) (\<lambda>Rs.
      bindE (metric_row L RMSE xs n p (fst b1) (snd b1) z1) (\<lambda>RMSEs.
      bindE (metric_row L KS xs n p (fst b1) (snd b1) z1) (\<lambda>KSs.
      Inr \<lparr>basicStats = stats,
           cell_data = [chis, Rs, RMSEs, KSs],
           fittingParams = [fst b1, snd b1, z1]\<rparr>)))))))"

text \<open>
  A run of the program with an optimizer that may be nondeterministic: \<open>fit2\<close> and
  \<open>fit1\<close> relate the arguments of a call of \<^verbatim>\<open>curve_fit\<close> (model function, support,
  probabilities) to its possible outcomes. The optimizer is only called when the
  empirical distribution has been built.
\<close>

record optimizer =
  fit2 :: "(fval list \<Rightarrow> fval \<Rightarrow> fval \<Rightarrow> vec) \<Rightarrow> fval list \<Rightarrow> fval list \<Rightarrow>
           (fval \<times> fval) option \<Rightarrow> bool"
  fit1 :: "(fval list \<Rightarrow> fval \<Rightarrow> vec) \<Rightarrow> fval list \<Rightarrow> fval list \<Rightarrow> fval option \<Rightarrow> bool"

definition distributionFitting_run ::
  "library \<Rightarrow> optimizer \<Rightarrow> int list \<Rightarrow> error + result \<Rightarrow> bool" where
  "distributionFitting_run L Opt R out =
     (case empiricalDistribution R of
        Inl err \<Rightarrow> out = Inl err
      | Inr e \<Rightarrow>
          (\<exists>ob oz.
             fit2 Opt (betaBinom L) (map (\<lambda>x. Fin (real_of_int x)) (emp_xs e))
               (map Fin (emp_p e)) ob \<and>
             fit1 Opt (zipfDist L) (map (\<lambda>x. Fin (real_of_int x)) (emp_xs e))
               (map Fin (emp_p e)) oz \<and>
             out = distributionFitting L ob oz R))"


section \<open>A library for concrete inputs\<close>

text \<open>
  Values of the special functions at the arguments of the examples below: binomial
  coefficients of natural numbers, the beta function at positive integers
  (\<open>B(p, q) = (p - 1)! (q - 1)! / (p + q - 1)!\<close>) and \<open>\<zeta>(0) = - 1/2\<close>. Elsewhere
  the stand-ins give NaN.
\<close>

fun binom_nat :: "fval \<Rightarrow> fval \<Rightarrow> fval" where
  "binom_nat (Fin a) (Fin b) =
     (if 0 \<le> a \<and> 0 \<le> b \<and> is_integral a \<and> is_integral b
      then Fin (real (nat \<lfloor>a\<rfloor> choose nat \<lfloor>b\<rfloor>)) else NaN)"
| "binom_nat x y = NaN"

fun beta_nat :: "fval \<Rightarrow> fval \<Rightarrow> fval" where
  "beta_nat (Fin a) (Fin b) =
     (if 1 \<le> a \<and> 1 \<le> b \<and> is_integral a \<and> is_integral b
      then Fin (fact (nat \<lfloor>a\<rfloor> - 1) * fact (nat \<lfloor>b\<rfloor> - 1) / fact (nat \<lfloor>a\<rfloor> + nat \<lfloor>b\<rfloor> - 1))
      else NaN)"
| "beta_nat x y = NaN"

definition zeta_at_0 :: "fval \<Rightarrow> fval" where
  "zeta_at_0 c = (if c = Fin 0 then Fin (- 1 / 2) else NaN)"

definition example_library :: library where
  "example_library = \<lparr>binom = binom_nat, beta = beta_nat, zeta = zeta_at_0\<rparr>"


section \<open>The beta-binomial evaluator as the specification words it\<close>

text \<open>
  This definition follows the specification, not the source: the density is evaluated at
  the offsets \<open>0, ..., n - 1\<close> of the support points. It is only compared with
  \<open>betaBinom\<close>.
\<close>

definition betaBinom_offsets :: "library \<Rightarrow> fval list \<Rightarrow> fval \<Rightarrow> fval \<Rightarrow> vec" where
  "betaBinom_offsets L x a b =
     (let n = Fin (real (length x)) in
      NdArray (map (\<lambda>k. fdiv (fmul (binom L n (Fin (real k)))
                                    (beta L (fadd a (Fin (real k)))
                                       (fsub (fadd b n) (Fin (real k)))))
                              (beta L a b)) [0..<length x]))"

section \<open>Cumulative sums of reals\<close>

text \<open>The running sums of a list of reals, the finite part of \<^verbatim>\<open>np.cumsum\<close>.\<close>

fun cumsum_real :: "real \<Rightarrow> real list \<Rightarrow> real list" where
  "cumsum_real acc [] = []"
| "cumsum_real acc (x # v) = (acc + x) # cumsum_real (acc + x) v"

section \<open>Properties of the empirical distribution\<close>

lemma fold_min_Min: "fold min rs (r::int) = Min (set (r # rs))"
proof (induction rs arbitrary: r)
  case Nil
  show ?case by simp
next
  case (Cons a rs)
  have "fold min (a # rs) r = Min (set (min a r # rs))"
    using Cons.IH [of "min a r"] by simp
  also have "\<dots> = Min (set (r # a # rs))"
    by (cases "set rs = {}") (simp_all add: min.commute min.assoc)
  finally show ?case .
qed

lemma fold_max_Max: "fold max rs (r::int) = Max (set (r # rs))"
proof (induction rs arbitrary: r)
  case Nil
  show ?case by simp
next
  case (Cons a rs)
  have "fold max (a # rs) r = Max (set (max a r # rs))"
    using Cons.IH [of "max a r"] by simp
  also have "\<dots> = Max (set (r # a # rs))"
    by (cases "set rs = {}") (simp_all add: max.commute max.assoc)
  finally show ?case .
qed

lemma np_min_eq:
  assumes "R \<noteq> []"
  shows "np_min R = Inr (Min (set R))"
proof (cases R)
  case Nil
  then show ?thesis using assms by simp
next
  case (Cons r rs)
  then show ?thesis by (simp only: np_min.simps fold_min_Min)
qed

lemma np_max_eq:
  assumes "R \<noteq> []"
  shows "np_max R = Inr (Max (set R))"
proof (cases R)
  case Nil
  then show ?thesis using assms by simp
next
  case (Cons r rs)
  then show ?thesis by (simp only: np_max.simps fold_max_Max)
qed

lemma index_found:
  "v \<in> set xs \<Longrightarrow> \<exists>k. index xs v = Inr k \<and> k < length xs \<and> xs ! k = v"
proof (induction xs)
  case Nil
  then show ?case by simp
next
  case (Cons x xs)
  show ?case
  proof (cases "x = v")
    case True
    then show ?thesis by simp
  next
    case False
    with Cons.prems have "v \<in> set xs" by simp
    then obtain k where "index xs v = Inr k" "k < length xs" "xs ! k = v"
      using Cons.IH by blast
    with False show ?thesis by simp
  qed
qed

lemma count_loop_counts:
  assumes "distinct xs" and "set rs \<subseteq> set xs" and "length fr = length xs"
  shows "\<exists>fr'. count_loop xs rs fr = Inr fr' \<and> length fr' = length xs \<and>
           (\<forall>k < length xs. fr' ! k = fr ! k + count_list rs (xs ! k))"
  using assms
proof (induction rs arbitrary: fr)
  case Nil
  then show ?case by simp
next
  case (Cons r rs)
  from Cons.prems have "r \<in> set xs" by simp
  then obtain j where j: "index xs r = Inr j" "j < length xs" "xs ! j = r"
    using index_found by blast
  let ?fr = "fr[j := fr ! j + 1]"
  have len: "length ?fr = length xs" using Cons.prems by simp
  from Cons.prems have sub: "set rs \<subseteq> set xs" by simp
  obtain fr' where fr': "count_loop xs rs ?fr = Inr fr'" "length fr' = length xs"
      "\<forall>k < length xs. fr' ! k = ?fr ! k + count_list rs (xs ! k)"
    using Cons.IH [OF Cons.prems(1) sub len] by blast
  have "\<forall>k < length xs. fr' ! k = fr ! k + count_list (r # rs) (xs ! k)"
  proof (intro allI impI)
    fix k assume k: "k < length xs"
    show "fr' ! k = fr ! k + count_list (r # rs) (xs ! k)"
    proof (cases "k = j")
      case True
      with fr'(3) k j Cons.prems(3) show ?thesis by simp
    next
      case False
      with Cons.prems(1) k j have "xs ! k \<noteq> r"
        by (auto simp: nth_eq_iff_index_eq)
      with fr'(3) k False show ?thesis by simp
    qed
  qed
  with fr'(1,2) j(1) show ?case by simp
qed

lemma count_loop_map:
  assumes "distinct xs" and "set R \<subseteq> set xs"
  shows "count_loop xs R (replicate (length xs) 0) = Inr (map (count_list R) xs)"
proof -
  obtain fr' where fr': "count_loop xs R (replicate (length xs) 0) = Inr fr'"
      "length fr' = length xs"
      "\<forall>k < length xs. fr' ! k = replicate (length xs) 0 ! k + count_list R (xs ! k)"
    using count_loop_counts [OF assms, of "replicate (length xs) 0"] by auto
  have "fr' = map (count_list R) xs"
    using fr'(2,3) by (intro nth_equalityI) simp_all
  with fr'(1) show ?thesis by simp
qed



lemma empiricalDistribution_nonempty:
  assumes "R \<noteq> []"
  shows "empiricalDistribution R =
     Inr \<lparr>emp_xs = [Min (set R)..Max (set R)],
          emp_fr = map (count_list R) [Min (set R)..Max (set R)],
          emp_N = length R,
          emp_n = length [Min (set R)..Max (set R)],
          emp_p = map (\<lambda>x. real x / real (length R)) (map (count_list R) [Min (set R)..Max (set R)])\<rparr>"
proof -
  let ?xs = "[Min (set R)..Max (set R)]"
  have sub: "set R \<subseteq> set ?xs" by auto
  have cl: "count_loop ?xs R (replicate (length ?xs) 0) = Inr (map (count_list R) ?xs)"
    by (rule count_loop_map [OF _ sub]) simp
  have pr: "probabilities (map (count_list R) ?xs) (length R)
      = Inr (map (\<lambda>x. real x / real (length R)) (map (count_list R) ?xs))"
    using assms by (simp add: probabilities_def)
  have ar: "arange (Min (set R)) (Max (set R) + 1) = ?xs"
    by (simp add: arange_def)
  show ?thesis
    unfolding empiricalDistribution_def np_min_eq [OF assms] np_max_eq [OF assms]
    by (simp only: sum.case ar Let_def cl pr)
qed



section \<open>The distribution functions\<close>

lemma empiricalDistribution_Nil: "empiricalDistribution [] = Inl ValueError"
  by (simp add: empiricalDistribution_def)

lemma empiricalDistribution_Inr_nonempty:
  assumes "empiricalDistribution R = Inr e"
  shows "R \<noteq> []"
  using assms by (auto simp: empiricalDistribution_Nil)

lemma empirical_support_nth:
  assumes "empiricalDistribution R = Inr e" and "k < emp_n e"
  shows "emp_xs e ! k = Min (set R) + int k"
    and "emp_n e = nat (Max (set R) - Min (set R) + 1)"
    and "length (emp_xs e) = emp_n e"
    and "length (emp_p e) = emp_n e"
proof -
  have ne: "R \<noteq> []" using assms(1) by (rule empiricalDistribution_Inr_nonempty)
  note eq = assms(1) [unfolded empiricalDistribution_nonempty [OF ne]]
  from eq show n: "emp_n e = nat (Max (set R) - Min (set R) + 1)" by auto
  from eq have xs: "emp_xs e = [Min (set R)..Max (set R)]" by auto
  from eq n show "length (emp_xs e) = emp_n e" by auto
  from eq n show "length (emp_p e) = emp_n e" by auto
  from assms(2) n have "Min (set R) + int k \<le> Max (set R)" by linarith
  then show "emp_xs e ! k = Min (set R) + int k"
    unfolding xs by (rule nth_upto)
qed

lemma is_integral_simps [simp]: "is_integral (numeral w)" "is_integral 1" "is_integral 0"
  by (simp_all add: is_integral_def)

lemma empirical_1_2: "empiricalDistribution [1, 2] =
   Inr \<lparr>emp_xs = [1, 2], emp_fr = [1, 1], emp_N = 2, emp_n = 2, emp_p = [1/2, 1/2]\<rparr>"
  by (simp add: empiricalDistribution_def arange_def probabilities_def upto.simps)

lemma betaBinom_at_1_2:
  "betaBinom example_library [Fin 1, Fin 2] (Fin 2) (Fin 1) = NdArray [Fin (1/3), Fin (1/2)]"
  by (simp add: betaBinom_def example_library_def Let_def fsub_def eval_nat_numeral)

lemma betaBinom_offsets_at_1_2:
  "betaBinom_offsets example_library [Fin 1, Fin 2] (Fin 2) (Fin 1)
     = NdArray [Fin (1/6), Fin (1/3)]"
  by (simp add: betaBinom_offsets_def example_library_def Let_def fsub_def
      upt_rec [of 0] upt_rec [of 1] eval_nat_numeral)

text \<open>
  Claim C2, as stated, fails. For the sample \<open>[1, 2]\<close> the support is \<open>[1, 2]\<close>; with
  \<open>a = 2\<close> and \<open>b = 1\<close> the source computes the density at the support values 1 and 2,
  which gives \<open>[1/3, 1/2]\<close>, while the density at the offsets 0 and 1 is \<open>[1/6, 1/3]\<close>.
\<close>

theorem betaBinom_not_at_offsets:
  "betaBinom example_library [Fin 1, Fin 2] (Fin 2) (Fin 1)
     \<noteq> betaBinom_offsets example_library [Fin 1, Fin 2] (Fin 2) (Fin 1)"
  by (simp add: betaBinom_at_1_2 betaBinom_offsets_at_1_2)

text \<open>
  Claim C2, amended. For every sample with an empirical distribution and every \<open>(a, b)\<close>,
  the beta-binomial vector that is fitted and scored is a numpy array with one entry per
  support point, and its entry at position \<open>k\<close> is
  \<open>C(n, x) B(a + x, b + n - x) / B(a, b)\<close> with \<open>n\<close> the support length and \<open>x\<close> the raw
  support value \<open>min + k\<close>.
\<close>

theorem betaBinom_at_raw_support_values:
  assumes "empiricalDistribution R = Inr e" and "k < emp_n e"
  shows "is_ndarray (betaBinom L (map (\<lambda>x. Fin (real_of_int x)) (emp_xs e)) a b)
    \<and> length (elems (betaBinom L (map (\<lambda>x. Fin (real_of_int x)) (emp_xs e)) a b)) = emp_n e
    \<and> elems (betaBinom L (map (\<lambda>x. Fin (real_of_int x)) (emp_xs e)) a b) ! k =
       (let n = Fin (real (emp_n e));
            x = Fin (real_of_int (Min (set R) + int k))
        in fdiv (fmul (binom L n x) (beta L (fadd a x) (fsub (fadd b n) x))) (beta L a b))"
proof -
  note s = empirical_support_nth [OF assms]
  from assms(2) s(3) have k: "k < length (emp_xs e)" by simp
  show ?thesis
    using k s(1) s(3) by (simp add: betaBinom_def Let_def)
qed

theorem betaBinom_at_raw_support_values_witness:
  "empiricalDistribution [1, 2] =
     Inr \<lparr>emp_xs = [1, 2], emp_fr = [1, 1], emp_N = 2, emp_n = 2, emp_p = [1/2, 1/2]\<rparr>
   \<and> (0::nat) < 2
   \<and> elems (betaBinom example_library [Fin 1, Fin 2] (Fin 2) (Fin 1)) ! 0 = Fin (1/3)"
  using betaBinom_at_raw_support_values
    [OF empirical_1_2, of 0 example_library "Fin 2" "Fin 1"]
  by (simp add: empirical_1_2 example_library_def Let_def fsub_def eval_nat_numeral)

text \<open>
  Claim C3 at a failing input. The source divides by \<^verbatim>\<open>zetac(c)\<close>, the zeta function
  minus 1, where its documentation and the claim have the zeta function. At the support
  \<open>[1]\<close> and \<open>c = 0\<close>, where \<open>\<zeta>(0) = - 1/2\<close>, the source returns \<open>1 / (\<zeta>(0) - 1) = - 2/3\<close>;
  the claimed value \<open>1 / \<zeta>(0)\<close> is \<open>- 2\<close>.
\<close>

theorem zipfDist_divides_by_zeta_minus_one:
  "zipfDist example_library [Fin 1] (Fin 0) = NdArray [Fin (- 2 / 3)]
   \<and> fdiv (fpow (Fin 1) (fmul (Fin (- 1)) (Fin 0))) (zeta example_library (Fin 0)) = Fin (- 2)"
  by (simp add: zipfDist_def zetac_def example_library_def zeta_at_0_def fsub_def)

text \<open>
  Claim C10. For every vector \<open>x\<close> and all parameters, the evaluator with an explicit \<open>n\<close>
  called with \<open>n = len(x)\<close> returns the same array as the evaluator that takes \<open>n\<close> from
  the length of \<open>x\<close>.
\<close>

theorem betaBinomN_agrees_with_betaBinom:
  "betaBinomN L x (Fin (real (length x))) a b = betaBinom L x a b"
  by (simp add: betaBinomN_def betaBinom_def Let_def)

section \<open>The empty sample\<close>

text \<open>
  Claim C6. On the empty sample \<^verbatim>\<open>np.min(R)\<close> raises ValueError, the error with which
  the source realises the invalid-input condition. Nothing catches it: building the
  empirical distribution fails, the function fails with the same error whatever the
  optimizer would do, and no result is returned.
\<close>

theorem empty_sample_is_fatal:
  "empiricalDistribution [] = Inl ValueError
   \<and> distributionFitting L ob oz [] = Inl ValueError
   \<and> distributionFitting_run L Opt [] out = (out = Inl ValueError)"
  by (simp add: empiricalDistribution_Nil distributionFitting_def
      distributionFitting_run_def bindE_def)

section \<open>Determinism of the pipeline\<close>





section \<open>Arithmetic on finite values\<close>

lemma fpow_square: "fpow (Fin a) (Fin 2) = Fin (a\<^sup>2)"
proof -
  have "\<lfloor>2::real\<rfloor> = 2" by simp
  then show ?thesis by (simp add: is_integral_def)
qed

lemma fsub_Fin [simp]: "fsub (Fin a) (Fin b) = Fin (a - b)"
  by (simp add: fsub_def)

lemma pointwise_map2:
  "length os \<le> length es \<Longrightarrow> pointwise f os es = Inr (map2 f os es)"
proof (induction os arbitrary: es)
  case Nil
  then show ?case by simp
next
  case (Cons o1 os)
  then obtain e es' where "es = e # es'" by (cases es) auto
  with Cons show ?case by simp
qed





lemma length_cumsum_real [simp]: "length (cumsum_real acc rs) = length rs"
  by (induction rs arbitrary: acc) simp_all









section \<open>RMSE and the Kolmogorov-Smirnov statistic\<close>




section \<open>Chi-square\<close>

lemma chiSquare_loop_sum:
  "length os \<le> length es \<Longrightarrow> nd \<or> Fin 0 \<notin> set es \<Longrightarrow>
   chiSquare_loop nd os es acc =
     Inr (foldl fadd acc (map2 (\<lambda>o1 e. fdiv (fpow (fsub o1 e) (Fin 2)) e) os es))"
proof (induction os arbitrary: es acc)
  case Nil
  then show ?case by simp
next
  case (Cons o1 os)
  then obtain e es' where es: "es = e # es'" by (cases es) auto
  from Cons.prems es have d: "divide nd (fpow (fsub o1 e) (Fin 2)) e
      = Inr (fdiv (fpow (fsub o1 e) (Fin 2)) e)"
    by (auto simp add: divide_def)
  from Cons.prems es have "length os \<le> length es'" "nd \<or> Fin 0 \<notin> set es'" by auto
  from Cons.IH [OF this] show ?case by (simp add: es d del: fpow.simps fdiv.simps)
qed

lemma chi_term_Fin:
  "fdiv (fpow (fsub (Fin a) (Fin b)) (Fin 2)) (Fin b) =
     (if b \<noteq> 0 then Fin ((a - b)\<^sup>2 / b) else if a = 0 then NaN else PInf)"
  by (simp add: fpow_square del: fpow.simps)









section \<open>The expected vectors\<close>










section \<open>Failure of a fit\<close>

lemma length_cumsum_from [simp]: "length (cumsum_from acc v) = length v"
  by (induction v arbitrary: acc) simp_all

lemma cumsum_from_nonempty: "v \<noteq> [] \<Longrightarrow> cumsum_from acc v \<noteq> []"
  by (cases v) simp_all

lemma metrics_total:
  assumes "length O' = length (elems E)" and "O' \<noteq> []"
    and "is_ndarray E \<or> Fin 0 \<notin> set (elems E)"
  shows "\<exists>c r m k. chiSquare O' E = Inr c \<and> RSquare O' E = Inr r \<and>
                   RMSE O' E = Inr m \<and> KS O' E = Inr k"
proof -
  have len: "length O' \<le> length (elems E)" using assms(1) by simp
  have 1: "\<exists>c. chiSquare O' E = Inr c"
    unfolding chiSquare_def using chiSquare_loop_sum [OF len assms(3)] by blast
  have 2: "\<exists>r. RSquare O' E = Inr r"
    by (simp add: RSquare_def pointwise_map2 [OF len] Let_def)
  have 3: "\<exists>m. RMSE O' E = Inr m"
    by (simp add: RMSE_def pointwise_map2 [OF len])
  have clen: "length (np_cumsum O') \<le> length (np_cumsum (elems E))"
    using assms(1) by (simp add: np_cumsum_def)
  obtain x v where d: "map2 (\<lambda>co ce. fabs (fsub co ce)) (np_cumsum O') (np_cumsum (elems E)) = x # v"
    using assms(1,2) by (cases O'; cases "elems E") (auto simp add: np_cumsum_def)
  have 4: "\<exists>k. KS O' E = Inr k"
    by (simp add: KS_def Let_def pointwise_map2 [OF clen] d)
  from 1 2 3 4 show ?thesis by blast
qed

lemma fadd_NaN_right [simp]: "fadd x NaN = NaN"
  by (cases x) simp_all

lemma fdiv_NaN_right [simp]: "fdiv x NaN = NaN"
  by (cases x) simp_all

lemma fmax_NaN_right [simp]: "fmax x NaN = NaN"
  by (cases x) simp_all

lemma foldl_fadd_NaN [simp]: "foldl fadd NaN ts = NaN"
  by (induction ts) simp_all

lemma np_sum_replicate_NaN: "0 < n \<Longrightarrow> np_sum (replicate n NaN) = NaN"
  by (cases n) (simp_all add: np_sum_def)

lemma map2_replicate_NaN:
  "length os = n \<Longrightarrow> (\<And>o1. f o1 NaN = NaN) \<Longrightarrow> map2 f os (replicate n NaN) = replicate n NaN"
proof (induction os arbitrary: n)
  case Nil
  then show ?case by simp
next
  case (Cons a os)
  then obtain k where n: "n = Suc k" by (cases n) auto
  with Cons.prems have "length os = k" by simp
  from Cons.IH [OF this Cons.prems(2)] show ?case by (simp add: n Cons.prems(2))
qed

lemma fsub_NaN [simp]: "fsub x NaN = NaN"
  by (simp add: fsub_def)

lemma cumsum_from_replicate_NaN: "cumsum_from acc (replicate n NaN) = replicate n NaN"
  by (induction n arbitrary: acc) simp_all

lemma fold_fmax_NaN [simp]: "fold fmax ts NaN = NaN"
  by (induction ts) simp_all

lemma np_amax_replicate_NaN: "0 < n \<Longrightarrow> np_amax (replicate n NaN) = Inr NaN"
  by (cases n) (simp_all del: fold_replicate)

lemma NaN_column:
  assumes "length O' = n" and "0 < n"
  shows "chiSquare O' (NdArray (replicate n NaN)) = Inr NaN"
    and "RSquare O' (NdArray (replicate n NaN)) = Inr NaN"
    and "RMSE O' (NdArray (replicate n NaN)) = Inr NaN"
    and "KS O' (NdArray (replicate n NaN)) = Inr NaN"
proof -
  have len: "length O' \<le> length (replicate n NaN)" using assms(1) by simp
  have chi: "map2 (\<lambda>o1 e. fdiv (fpow (fsub o1 e) (Fin 2)) e) O' (replicate n NaN) = replicate n NaN"
    by (rule map2_replicate_NaN [OF assms(1)]) simp
  have sq: "map2 (\<lambda>o1 e. fpow (fsub o1 e) (Fin 2)) O' (replicate n NaN) = replicate n NaN"
    by (rule map2_replicate_NaN [OF assms(1)]) simp
  have "chiSquare O' (NdArray (replicate n NaN)) = Inr (np_sum (replicate n NaN))"
    unfolding chiSquare_def np_sum_def using chiSquare_loop_sum [OF len, of True "Fin 0"]
    by (simp only: elems.simps is_ndarray.simps chi simp_thms)
  then show "chiSquare O' (NdArray (replicate n NaN)) = Inr NaN"
    by (simp only: np_sum_replicate_NaN [OF assms(2)])
  have pw: "pointwise (\<lambda>o1 e. fpow (fsub o1 e) (Fin 2)) O' (replicate n NaN) = Inr (replicate n NaN)"
    by (simp only: pointwise_map2 [OF len] sq)
  show "RSquare O' (NdArray (replicate n NaN)) = Inr NaN"
    by (simp add: RSquare_def pw np_sum_replicate_NaN [OF assms(2)] Let_def)
  show "RMSE O' (NdArray (replicate n NaN)) = Inr NaN"
    by (simp add: RMSE_def pw np_mean_def np_sum_replicate_NaN [OF assms(2)])
  have clen: "length (np_cumsum O') = n" using assms(1) by (simp add: np_cumsum_def)
  have ks: "map2 (\<lambda>co ce. fabs (fsub co ce)) (np_cumsum O') (replicate n NaN) = replicate n NaN"
    by (rule map2_replicate_NaN [OF clen]) simp
  have clen': "length (np_cumsum O') \<le> length (replicate n NaN)" using clen by simp
  have pk: "pointwise (\<lambda>co ce. fabs (fsub co ce)) (np_cumsum O') (replicate n NaN)
      = Inr (replicate n NaN)"
    by (simp only: pointwise_map2 [OF clen'] ks)
  have cs: "np_cumsum (replicate n NaN) = replicate n NaN"
    by (simp add: np_cumsum_def cumsum_from_replicate_NaN)
  show "KS O' (NdArray (replicate n NaN)) = Inr NaN"
    by (simp add: KS_def Let_def cs pk np_amax_replicate_NaN [OF assms(2)])
qed

lemma betaBinom_NaN:
  "beta L NaN NaN = NaN \<Longrightarrow> betaBinom L xs NaN NaN = NdArray (replicate (length xs) NaN)"
  by (simp add: betaBinom_def Let_def map_replicate_const)

lemma zipfDist_NaN:
  "zeta L NaN = NaN \<Longrightarrow> zipfDist L xs NaN = NdArray (replicate (length xs) NaN)"
  by (simp add: zipfDist_def zetac_def fsub_def map_replicate_const comp_def del: fpow.simps)

lemma metric_row_Inr:
  assumes "uniDist xs n = Inr U" and "metric p U = Inr m1"
    and "metric p (betaBinom L xs a b) = Inr m2"
    and "metric p (zipfDist L xs c) = Inr m3"
  shows "metric_row L metric xs n p a b c = Inr [m1, m2, m3]"
  using assms by (simp add: metric_row_def bindE_def)

lemma basic_statistics_Inr:
  assumes "R \<noteq> []"
  shows "\<exists>stats. basic_statistics R = Inr stats \<and> length stats = 5"
  by (simp add: basic_statistics_def Let_def bindE_def np_max_eq [OF assms] np_min_eq [OF assms])

lemma distributionFitting_completes:
  assumes e: "empiricalDistribution R = Inr e"
    and xs: "xs = map (\<lambda>x. Fin (real_of_int x)) (emp_xs e)"
    and p: "p = map Fin (emp_p e)"
    and n: "n = emp_n e"
    and a: "a = fst (b1_of ob)" and b: "b = snd (b1_of ob)" and c: "c = z1_of oz"
  shows "\<exists>r U u1 u2 u3 u4 b1 b2 b3 b4 z1 z2 z3 z4.
           distributionFitting L ob oz R = Inr r \<and>
           length (basicStats r) = 5 \<and>
           fittingParams r = [a, b, c] \<and>
           cell_data r = [[u1, b1, z1], [u2, b2, z2], [u3, b3, z3], [u4, b4, z4]] \<and>
           uniDist xs n = Inr U \<and>
           chiSquare p U = Inr u1 \<and> RSquare p U = Inr u2 \<and> RMSE p U = Inr u3 \<and> KS p U = Inr u4 \<and>
           chiSquare p (betaBinom L xs a b) = Inr b1 \<and> RSquare p (betaBinom L xs a b) = Inr b2 \<and>
           RMSE p (betaBinom L xs a b) = Inr b3 \<and> KS p (betaBinom L xs a b) = Inr b4 \<and>
           chiSquare p (zipfDist L xs c) = Inr z1 \<and> RSquare p (zipfDist L xs c) = Inr z2 \<and>
           RMSE p (zipfDist L xs c) = Inr z3 \<and> KS p (zipfDist L xs c) = Inr z4"
proof -
  from e have ne: "R \<noteq> []" by (rule empiricalDistribution_Inr_nonempty)
  note eq = e [unfolded empiricalDistribution_nonempty [OF ne]]
  from eq have nn: "emp_n e = nat (Max (set R) - Min (set R) + 1)" by auto
  from eq nn have lx: "length xs = n" unfolding xs n by auto
  from eq nn have lp: "length p = n" unfolding p n by auto
  have "Min (set R) \<le> Max (set R)" using ne by simp
  with nn n have pos: "0 < n" by simp
  with lp have pne: "p \<noteq> []" by auto
  let ?U = "PyList (replicate (length xs) (Fin (1 / real n)))"
  have U: "uniDist xs n = Inr ?U" using pos by (simp add: uniDist_def)
  have Unz: "is_ndarray ?U \<or> Fin 0 \<notin> set (elems ?U)" using pos by auto
  have Ulen: "length p = length (elems ?U)" using lp lx by simp
  from metrics_total [OF Ulen pne Unz] obtain u1 u2 u3 u4 where
    u: "chiSquare p ?U = Inr u1" "RSquare p ?U = Inr u2" "RMSE p ?U = Inr u3" "KS p ?U = Inr u4"
    by blast
  have Blen: "length p = length (elems (betaBinom L xs a b))"
    using lp lx by (simp add: betaBinom_def Let_def)
  have Bnd: "is_ndarray (betaBinom L xs a b) \<or> Fin 0 \<notin> set (elems (betaBinom L xs a b))"
    by (simp add: betaBinom_def Let_def)
  from metrics_total [OF Blen pne Bnd] obtain b1 b2 b3 b4 where
    bb: "chiSquare p (betaBinom L xs a b) = Inr b1" "RSquare p (betaBinom L xs a b) = Inr b2"
        "RMSE p (betaBinom L xs a b) = Inr b3" "KS p (betaBinom L xs a b) = Inr b4"
    by blast
  have Zlen: "length p = length (elems (zipfDist L xs c))"
    using lp lx by (simp add: zipfDist_def)
  have Znd: "is_ndarray (zipfDist L xs c) \<or> Fin 0 \<notin> set (elems (zipfDist L xs c))"
    by (simp add: zipfDist_def)
  from metrics_total [OF Zlen pne Znd] obtain z1 z2 z3 z4 where
    z: "chiSquare p (zipfDist L xs c) = Inr z1" "RSquare p (zipfDist L xs c) = Inr z2"
       "RMSE p (zipfDist L xs c) = Inr z3" "KS p (zipfDist L xs c) = Inr z4"
    by blast
  from basic_statistics_Inr [OF ne] obtain stats where
    st: "basic_statistics R = Inr stats" "length stats = 5" by blast
  have r1: "metric_row L chiSquare xs n p a b c = Inr [u1, b1, z1]"
    by (rule metric_row_Inr [where metric = chiSquare, OF U u(1) bb(1) z(1)])
  have r2: "metric_row L RSquare xs n p a b c = Inr [u2, b2, z2]"
    by (rule metric_row_Inr [where metric = RSquare, OF U u(2) bb(2) z(2)])
  have r3: "metric_row L RMSE xs n p a b c = Inr [u3, b3, z3]"
    by (rule metric_row_Inr [where metric = RMSE, OF U u(3) bb(3) z(3)])
  have r4: "metric_row L KS xs n p a b c = Inr [u4, b4, z4]"
    by (rule metric_row_Inr [where metric = KS, OF U u(4) bb(4) z(4)])
  have "distributionFitting L ob oz R =
      Inr \<lparr>basicStats = stats,
           cell_data = [[u1, b1, z1], [u2, b2, z2], [u3, b3, z3], [u4, b4, z4]],
           fittingParams = [a, b, c]\<rparr>"
    unfolding distributionFitting_def e
    using st(1) r1 r2 r3 r4 unfolding xs p n a b c
    by (simp add: bindE_def Let_def)
  with st(2) U u bb z show ?thesis by fastforce
qed


text \<open>
  Claim C4. Let the sample be non-empty, with support \<open>xs\<close>, probabilities \<open>p\<close> and
  \<open>n\<close> support points. If the beta-binomial call of \<^verbatim>\<open>curve_fit\<close> raises, the
  orchestrator still returns a result with all three fields: the five basic statistics,
  the parameters \<open>[NaN, NaN, c]\<close>, and the four rows of metrics, where the beta-binomial
  column is NaN in every row while the uniform and the Zipfian column are the metrics of
  \<^verbatim>\<open>uniDist(xs, n)\<close> and of \<^verbatim>\<open>zipfDist(xs, c)\<close> with the fitted \<open>c\<close>. Symmetrically, if the
  Zipfian call raises, the parameters are \<open>[a, b, NaN]\<close>, the Zipfian column is NaN and
  the other two columns are scored. The special functions are assumed to return NaN at NaN
  arguments, as scipy's do.
\<close>

theorem fit_failure_gives_NaN_and_complete_result:
  assumes "empiricalDistribution R = Inr e"
    and "xs = map (\<lambda>x. Fin (real_of_int x)) (emp_xs e)"
    and "p = map Fin (emp_p e)"
    and "n = emp_n e"
  shows "(beta L NaN NaN = NaN \<longrightarrow>
           (\<exists>r U u1 u2 u3 u4 z1 z2 z3 z4.
              distributionFitting L None oz R = Inr r \<and>
              length (basicStats r) = 5 \<and>
              fittingParams r = [NaN, NaN, z1_of oz] \<and>
              cell_data r = [[u1, NaN, z1], [u2, NaN, z2], [u3, NaN, z3], [u4, NaN, z4]] \<and>
              uniDist xs n = Inr U \<and>
              chiSquare p U = Inr u1 \<and> RSquare p U = Inr u2 \<and>
              RMSE p U = Inr u3 \<and> KS p U = Inr u4 \<and>
              chiSquare p (zipfDist L xs (z1_of oz)) = Inr z1 \<and>
              RSquare p (zipfDist L xs (z1_of oz)) = Inr z2 \<and>
              RMSE p (zipfDist L xs (z1_of oz)) = Inr z3 \<and>
              KS p (zipfDist L xs (z1_of oz)) = Inr z4)) \<and>
         (zeta L NaN = NaN \<longrightarrow>
           (\<exists>r U u1 u2 u3 u4 b1 b2 b3 b4.
              distributionFitting L ob None R = Inr r \<and>
              length (basicStats r) = 5 \<and>
              fittingParams r = [fst (b1_of ob), snd (b1_of ob), NaN] \<and>
              cell_data r = [[u1, b1, NaN], [u2, b2, NaN], [u3, b3, NaN], [u4, b4, NaN]] \<and>
              uniDist xs n = Inr U \<and>
              chiSquare p U = Inr u1 \<and> RSquare p U = Inr u2 \<and>
              RMSE p U = Inr u3 \<and> KS p U = Inr u4 \<and>
              chiSquare p (betaBinom L xs (fst (b1_of ob)) (snd (b1_of ob))) = Inr b1 \<and>
              RSquare p (betaBinom L xs (fst (b1_of ob)) (snd (b1_of ob))) = Inr b2 \<and>
              RMSE p (betaBinom L xs (fst (b1_of ob)) (snd (b1_of ob))) = Inr b3 \<and>
              KS p (betaBinom L xs (fst (b1_of ob)) (snd (b1_of ob))) = Inr b4))"
proof -
  from assms(1) have ne: "R \<noteq> []" by (rule empiricalDistribution_Inr_nonempty)
  note eq = assms(1) [unfolded empiricalDistribution_nonempty [OF ne]]
  from eq have nn: "emp_n e = nat (Max (set R) - Min (set R) + 1)" by auto
  from eq nn have lx: "length xs = n" unfolding assms by auto
  from eq nn have lp: "length p = n" unfolding assms by auto
  have "Min (set R) \<le> Max (set R)" using ne by simp
  with nn assms(4) have pos: "0 < n" by simp
  note col = NaN_column [OF lp pos]
  have part1: "\<exists>r U u1 u2 u3 u4 z1 z2 z3 z4.
              distributionFitting L None oz R = Inr r \<and>
              length (basicStats r) = 5 \<and>
              fittingParams r = [NaN, NaN, z1_of oz] \<and>
              cell_data r = [[u1, NaN, z1], [u2, NaN, z2], [u3, NaN, z3], [u4, NaN, z4]] \<and>
              uniDist xs n = Inr U \<and>
              chiSquare p U = Inr u1 \<and> RSquare p U = Inr u2 \<and>
              RMSE p U = Inr u3 \<and> KS p U = Inr u4 \<and>
              chiSquare p (zipfDist L xs (z1_of oz)) = Inr z1 \<and>
              RSquare p (zipfDist L xs (z1_of oz)) = Inr z2 \<and>
              RMSE p (zipfDist L xs (z1_of oz)) = Inr z3 \<and>
              KS p (zipfDist L xs (z1_of oz)) = Inr z4"
    if B: "beta L NaN NaN = NaN"
  proof -
    from distributionFitting_completes
      [where ob = None and oz = oz and L = L, OF assms(1) assms(2) assms(3) assms(4) refl refl refl]
    obtain r U u1 u2 u3 u4 b1 b2 b3 b4 z1 z2 z3 z4 where
      r: "distributionFitting L None oz R = Inr r" "length (basicStats r) = 5"
         "fittingParams r = [fst (b1_of None), snd (b1_of None), z1_of oz]"
         "cell_data r = [[u1, b1, z1], [u2, b2, z2], [u3, b3, z3], [u4, b4, z4]]"
      and U: "uniDist xs n = Inr U" "chiSquare p U = Inr u1" "RSquare p U = Inr u2"
         "RMSE p U = Inr u3" "KS p U = Inr u4"
      and b: "chiSquare p (betaBinom L xs (fst (b1_of None)) (snd (b1_of None))) = Inr b1"
         "RSquare p (betaBinom L xs (fst (b1_of None)) (snd (b1_of None))) = Inr b2"
         "RMSE p (betaBinom L xs (fst (b1_of None)) (snd (b1_of None))) = Inr b3"
         "KS p (betaBinom L xs (fst (b1_of None)) (snd (b1_of None))) = Inr b4"
      and z: "chiSquare p (zipfDist L xs (z1_of oz)) = Inr z1"
         "RSquare p (zipfDist L xs (z1_of oz)) = Inr z2"
         "RMSE p (zipfDist L xs (z1_of oz)) = Inr z3"
         "KS p (zipfDist L xs (z1_of oz)) = Inr z4"
      by (elim exE conjE)
    have BN: "betaBinom L xs (fst (b1_of None)) (snd (b1_of None)) = NdArray (replicate n NaN)"
      using betaBinom_NaN [OF B, of xs] lx by simp
    from b col have bs: "b1 = NaN" "b2 = NaN" "b3 = NaN" "b4 = NaN" unfolding BN by simp_all
    from r(3) have fp: "fittingParams r = [NaN, NaN, z1_of oz]" by simp
    from r(4) have cd: "cell_data r = [[u1, NaN, z1], [u2, NaN, z2], [u3, NaN, z3], [u4, NaN, z4]]"
      unfolding bs .
    from r(1,2) fp cd U z show ?thesis by (intro exI conjI)
  qed
  have part2: "\<exists>r U u1 u2 u3 u4 b1 b2 b3 b4.
              distributionFitting L ob None R = Inr r \<and>
              length (basicStats r) = 5 \<and>
              fittingParams r = [fst (b1_of ob), snd (b1_of ob), NaN] \<and>
              cell_data r = [[u1, b1, NaN], [u2, b2, NaN], [u3, b3, NaN], [u4, b4, NaN]] \<and>
              uniDist xs n = Inr U \<and>
              chiSquare p U = Inr u1 \<and> RSquare p U = Inr u2 \<and>
              RMSE p U = Inr u3 \<and> KS p U = Inr u4 \<and>
              chiSquare p (betaBinom L xs (fst (b1_of ob)) (snd (b1_of ob))) = Inr b1 \<and>
              RSquare p (betaBinom L xs (fst (b1_of ob)) (snd (b1_of ob))) = Inr b2 \<and>
              RMSE p (betaBinom L xs (fst (b1_of ob)) (snd (b1_of ob))) = Inr b3 \<and>
              KS p (betaBinom L xs (fst (b1_of ob)) (snd (b1_of ob))) = Inr b4"
    if Z: "zeta L NaN = NaN"
  proof -
    from distributionFitting_completes
      [where ob = ob and oz = None and L = L, OF assms(1) assms(2) assms(3) assms(4) refl refl refl]
    obtain r U u1 u2 u3 u4 b1 b2 b3 b4 z1 z2 z3 z4 where
      r: "distributionFitting L ob None R = Inr r" "length (basicStats r) = 5"
         "fittingParams r = [fst (b1_of ob), snd (b1_of ob), z1_of None]"
         "cell_data r = [[u1, b1, z1], [u2, b2, z2], [u3, b3, z3], [u4, b4, z4]]"
      and U: "uniDist xs n = Inr U" "chiSquare p U = Inr u1" "RSquare p U = Inr u2"
         "RMSE p U = Inr u3" "KS p U = Inr u4"
      and b: "chiSquare p (betaBinom L xs (fst (b1_of ob)) (snd (b1_of ob))) = Inr b1"
         "RSquare p (betaBinom L xs (fst (b1_of ob)) (snd (b1_of ob))) = Inr b2"
         "RMSE p (betaBinom L xs (fst (b1_of ob)) (snd (b1_of ob))) = Inr b3"
         "KS p (betaBinom L xs (fst (b1_of ob)) (snd (b1_of ob))) = Inr b4"
      and z: "chiSquare p (zipfDist L xs (z1_of None)) = Inr z1"
         "RSquare p (zipfDist L xs (z1_of None)) = Inr z2"
         "RMSE p (zipfDist L xs (z1_of None)) = Inr z3"
         "KS p (zipfDist L xs (z1_of None)) = Inr z4"
      by (elim exE conjE)
    have ZN: "zipfDist L xs (z1_of None) = NdArray (replicate n NaN)"
      using zipfDist_NaN [OF Z, of xs] lx by simp
    from z col have zs: "z1 = NaN" "z2 = NaN" "z3 = NaN" "z4 = NaN" unfolding ZN by simp_all
    from r(3) have fp: "fittingParams r = [fst (b1_of ob), snd (b1_of ob), NaN]" by simp
    from r(4) have cd: "cell_data r = [[u1, b1, NaN], [u2, b2, NaN], [u3, b3, NaN], [u4, b4, NaN]]"
      unfolding zs .
    from r(1,2) fp cd U b show ?thesis by (intro exI conjI)
  qed
  from part1 part2 show ?thesis by (intro conjI impI)
qed

lemma example_library_NaN:
  "beta example_library NaN NaN = NaN" "zeta example_library NaN = NaN"
  by (simp_all add: example_library_def zeta_at_0_def)

theorem fit_failure_gives_NaN_and_complete_result_witness:
  "empiricalDistribution [1, 2] =
     Inr \<lparr>emp_xs = [1, 2], emp_fr = [1, 1], emp_N = 2, emp_n = 2, emp_p = [1/2, 1/2]\<rparr> \<and>
   beta example_library NaN NaN = NaN \<and>
   zeta example_library NaN = NaN \<and>
   (\<exists>r u1 u2 u3 u4 z1 z2 z3 z4.
      distributionFitting example_library None (Some (Fin 0)) [1, 2] = Inr r \<and>
      fittingParams r = [NaN, NaN, Fin 0] \<and>
      cell_data r = [[u1, NaN, z1], [u2, NaN, z2], [u3, NaN, z3], [u4, NaN, z4]]) \<and>
   (\<exists>r u1 u2 u3 u4 b1 b2 b3 b4.
      distributionFitting example_library (Some (Fin 2, Fin 1)) None [1, 2] = Inr r \<and>
      fittingParams r = [Fin 2, Fin 1, NaN] \<and>
      cell_data r = [[u1, b1, NaN], [u2, b2, NaN], [u3, b3, NaN], [u4, b4, NaN]])"
proof -
  note th = fit_failure_gives_NaN_and_complete_result
      [where L = example_library and oz = "Some (Fin 0)" and ob = "Some (Fin 2, Fin 1)",
       OF empirical_1_2 refl refl refl]
  from th example_library_NaN(1) have
    "\<exists>r u1 u2 u3 u4 z1 z2 z3 z4.
      distributionFitting example_library None (Some (Fin 0)) [1, 2] = Inr r \<and>
      fittingParams r = [NaN, NaN, Fin 0] \<and>
      cell_data r = [[u1, NaN, z1], [u2, NaN, z2], [u3, NaN, z3], [u4, NaN, z4]]"
    by (simp del: fdiv.simps fpow.simps fmul.simps fadd.simps) blast
  moreover from th example_library_NaN(2) have
    "\<exists>r u1 u2 u3 u4 b1 b2 b3 b4.
      distributionFitting example_library (Some (Fin 2, Fin 1)) None [1, 2] = Inr r \<and>
      fittingParams r = [Fin 2, Fin 1, NaN] \<and>
      cell_data r = [[u1, b1, NaN], [u2, b2, NaN], [u3, b3, NaN], [u4, b4, NaN]]"
    by (simp del: fdiv.simps fpow.simps fmul.simps fadd.simps) blast
  ultimately show ?thesis using empirical_1_2 example_library_NaN by simp
qed

end
